theory Spec2Isabelle
  imports Main
begin

section \<open>Data model of the Turing machine simulator\<close>

text \<open>
  The simulator of \<^verbatim>\<open>turing_machine.py\<close> works on Python strings and on
  \<^verbatim>\<open>Optional[str]\<close> values, where \<^verbatim>\<open>None\<close> stands for the blank symbol. A Python
  \<^verbatim>\<open>str\<close> is a \<open>string\<close> here and an \<^verbatim>\<open>Optional[str]\<close> a \<open>string option\<close>;
  nothing below depends on how many values a character has.
\<close>

type_synonym cell = "string option"

text \<open>The dataclass \<^verbatim>\<open>Transition\<close>, with its field names.\<close>

record transition =
  initial_state :: string
  mem_cache_value :: "string option"
  tape_input :: "string option"
  final_state :: string
  new_mem_cache_value :: "string option"
  tape_output :: "string option"
  tape_displacement :: string

text \<open>
  The attributes that \<^verbatim>\<open>TuringMachine.__init__\<close> sets. The prefix \<open>tm_\<close> keeps
  \<^verbatim>\<open>self.initial_state\<close> and \<^verbatim>\<open>self.final_state\<close> apart from the fields of a
  transition.
\<close>

record machine =
  tm_states :: "string list"
  tm_initial_state :: string
  tm_final_state :: string
  tm_alphabet :: "string list"
  tm_tape_alphabet :: "string list"
  tm_transitions :: "transition list"
  tm_simulation_strings :: "string list"

datatype error = KeyError | IndexError

subsection \<open>The configuration dictionary\<close>

text \<open>
  A nullable entry of the parsed YAML: the key is missing, its value is \<^verbatim>\<open>null\<close>,
  or its value is a string (possibly the empty one). The entries that the schema
  declares as plain strings are strings.
\<close>

datatype yaml_value = Absent | Null | Str string

record delta_item =
  params_initial_state :: string
  params_mem_cache_value :: yaml_value
  params_tape_input :: yaml_value
  output_final_state :: string
  output_mem_cache_value :: yaml_value
  output_tape_output :: yaml_value
  output_tape_displacement :: string

record config =
  q_list :: "string list"
  initial :: string
  final :: string
  alphabet :: "string list"
  tape_alphabet :: "string list"
  delta :: "delta_item list"
  simulation_strings :: "string list option"

section \<open>Construction of a machine\<close>

text \<open>
  \<^verbatim>\<open>d.get(key)\<close> followed by \<^verbatim>\<open>if v is None or v == '': v = None\<close>: a missing key
  reads as \<^verbatim>\<open>None\<close>.
\<close>

fun get_blank :: "yaml_value \<Rightarrow> string option" where
  "get_blank Absent = None"
| "get_blank Null = None"
| "get_blank (Str s) = (if s = [] then None else Some s)"

text \<open>
  \<^verbatim>\<open>params['tape_input']\<close> followed by the same test: a missing key raises
  \<^verbatim>\<open>KeyError\<close>.
\<close>

fun index_blank :: "yaml_value \<Rightarrow> error + string option" where
  "index_blank Absent = Inl KeyError"
| "index_blank Null = Inr None"
| "index_blank (Str s) = Inr (if s = [] then None else Some s)"

definition make_transition :: "delta_item \<Rightarrow> error + transition" where
  "make_transition delta_item =
     (let mem_cache_in = get_blank (params_mem_cache_value delta_item) in
      case index_blank (params_tape_input delta_item) of
        Inl e \<Rightarrow> Inl e
      | Inr tape_in \<Rightarrow>
          (let mem_cache_out = get_blank (output_mem_cache_value delta_item);
               tape_out = get_blank (output_tape_output delta_item)
           in Inr \<lparr> initial_state = params_initial_state delta_item,
                    mem_cache_value = mem_cache_in,
                    tape_input = tape_in,
                    final_state = output_final_state delta_item,
                    new_mem_cache_value = mem_cache_out,
                    tape_output = tape_out,
                    tape_displacement = output_tape_displacement delta_item \<rparr>))"

text \<open>The loop over \<^verbatim>\<open>config['delta']\<close>; the first exception ends it.\<close>

fun build_transitions :: "delta_item list \<Rightarrow> error + transition list" where
  "build_transitions [] = Inr []"
| "build_transitions (d # ds) =
     (case make_transition d of
        Inl e \<Rightarrow> Inl e
      | Inr t \<Rightarrow> (case build_transitions ds of
                    Inl e \<Rightarrow> Inl e
                  | Inr ts \<Rightarrow> Inr (t # ts)))"

definition TuringMachine_init :: "config \<Rightarrow> error + machine" where
  "TuringMachine_init cfg =
     (case build_transitions (delta cfg) of
        Inl e \<Rightarrow> Inl e
      | Inr ts \<Rightarrow>
          Inr \<lparr> tm_states = q_list cfg,
                tm_initial_state = initial cfg,
                tm_final_state = final cfg,
                tm_alphabet = alphabet cfg,
                tm_tape_alphabet = tape_alphabet cfg,
                tm_transitions = ts,
                tm_simulation_strings =
                  (case simulation_strings cfg of None \<Rightarrow> [] | Some ss \<Rightarrow> ss) \<rparr>)"

section \<open>The transition table\<close>

text \<open>
  The \<^verbatim>\<open>for\<close> loop of \<^verbatim>\<open>find_transition\<close>. Each \<^verbatim>\<open>continue\<close> is the recursive
  call on the rest of the table. The assignment
  \<^verbatim>\<open>tape_input = tape_symbol if tape_symbol is not None else None\<close> before the loop
  leaves the argument as it is.
\<close>

fun find_in :: "transition list \<Rightarrow> string \<Rightarrow> string option \<Rightarrow> string option
    \<Rightarrow> transition option" where
  "find_in [] state mem_cache tape_symbol = None"
| "find_in (t # ts) state mem_cache tape_symbol =
     (if initial_state t \<noteq> state then find_in ts state mem_cache tape_symbol
      else if mem_cache_value t \<noteq> mem_cache then find_in ts state mem_cache tape_symbol
      else
        (let transition_input =
               (if tape_input t = None \<or> tape_input t = Some [] then None
                else tape_input t)
         in if transition_input = tape_symbol then Some t
            else find_in ts state mem_cache tape_symbol))"

definition find_transition :: "machine \<Rightarrow> string \<Rightarrow> string option \<Rightarrow> string option
    \<Rightarrow> transition option" where
  "find_transition m state mem_cache tape_symbol =
     find_in (tm_transitions m) state mem_cache tape_symbol"

section \<open>The renderer of instantaneous descriptions\<close>

fun symbol_to_str :: "cell \<Rightarrow> string" where
  "symbol_to_str None = ''B''"
| "symbol_to_str (Some symbol) = symbol"

text \<open>\<^verbatim>\<open>"".join(self._symbol_to_str(s) for s in cells)\<close>\<close>

definition join_symbols :: "cell list \<Rightarrow> string" where
  "join_symbols cells = concat (map symbol_to_str cells)"

definition state_part :: "string \<Rightarrow> string option \<Rightarrow> string" where
  "state_part state mem_cache =
     ''['' @ state @ (case mem_cache of None \<Rightarrow> [] | Some c \<Rightarrow> '','' @ c) @ '']''"

text \<open>
  In the last branch \<open>0 \<le> position < len(tape)\<close> holds, so the slices
  \<^verbatim>\<open>tape[:position]\<close> and \<^verbatim>\<open>tape[position+1:]\<close> are \<open>take\<close> and \<open>drop\<close> and the
  index is in range.
\<close>

definition create_instant_description ::
    "cell list \<Rightarrow> int \<Rightarrow> string \<Rightarrow> string option \<Rightarrow> string" where
  "create_instant_description tape position state mem_cache =
     (if position < 0 then
        state_part state mem_cache @ ''B'' @ join_symbols tape
      else if position \<ge> int (length tape) then
        join_symbols tape @ state_part state mem_cache @ ''B''
      else
        (let left_part = join_symbols (take (nat position) tape);
             current_symbol = symbol_to_str (tape ! nat position);
             right_part = join_symbols (drop (nat position + 1) tape)
         in left_part @ state_part state mem_cache @ current_symbol @ right_part))"

section \<open>The simulation loop\<close>

text \<open>
  The local variables of \<^verbatim>\<open>simulate\<close>. The field \<open>applied\<close> is a ghost counter,
  absent from the source: it counts the transitions applied so far (\<^verbatim>\<open>step\<close> does
  not, since the accepting \<^verbatim>\<open>return\<close> leaves the loop before \<^verbatim>\<open>step += 1\<close>).
\<close>

record run_state =
  tape :: "cell list"
  tape_position :: int
  current_state :: string
  mem_cache :: "string option"
  instant_descriptions :: "string list"
  step :: nat
  applied :: nat

definition max_steps :: nat where
  "max_steps = 10000"

text \<open>\<^verbatim>\<open>tape = list(input_string)\<close>: one cell per character.\<close>

definition input_tape :: "string \<Rightarrow> cell list" where
  "input_tape input_string = map (\<lambda>c. Some [c]) input_string"

definition initial_run :: "machine \<Rightarrow> string \<Rightarrow> run_state" where
  "initial_run m input_string =
     \<lparr> tape = input_tape input_string,
       tape_position = 0,
       current_state = tm_initial_state m,
       mem_cache = None,
       instant_descriptions =
         [create_instant_description (input_tape input_string) 0 (tm_initial_state m) None],
       step = 0,
       applied = 0 \<rparr>"

text \<open>The \<^verbatim>\<open>if\<close>/\<^verbatim>\<open>elif\<close> at the head of the loop body.\<close>

definition extend_tape :: "run_state \<Rightarrow> run_state" where
  "extend_tape s =
     (if tape_position s < 0 then s\<lparr> tape := None # tape s, tape_position := 0 \<rparr>
      else if tape_position s \<ge> int (length (tape s)) then s\<lparr> tape := tape s @ [None] \<rparr>
      else s)"

text \<open>
  The cell that \<^verbatim>\<open>xs[i]\<close> addresses in a list of length \<open>n\<close>: a negative index
  counts from the end, and an index out of range raises \<^verbatim>\<open>IndexError\<close> (\<open>None\<close>).
\<close>

definition py_index :: "nat \<Rightarrow> int \<Rightarrow> nat option" where
  "py_index n i =
     (let j = (if i < 0 then int n + i else i)
      in if 0 \<le> j \<and> j < int n then Some (nat j) else None)"

text \<open>
  The body of the loop from \<^verbatim>\<open>current_state = transition.final_state\<close> to the
  \<^verbatim>\<open>append\<close> of the new description; \<open>i\<close> is the cell that
  \<^verbatim>\<open>tape[tape_position]\<close> addresses.
\<close>

definition apply_transition :: "transition \<Rightarrow> nat \<Rightarrow> run_state \<Rightarrow> run_state" where
  "apply_transition t i s =
     (let current_state' = final_state t;
          mem_cache' = new_mem_cache_value t;
          tape' = (case tape_output t of
                     Some v \<Rightarrow> (tape s)[i := Some v]
                   | None \<Rightarrow> (tape s)[i := None]);
          tape_position' =
            (if tape_displacement t = ''L'' then tape_position s - 1
             else if tape_displacement t = ''R'' then tape_position s + 1
             else tape_position s);
          id_str = create_instant_description tape' tape_position' current_state' mem_cache'
      in s\<lparr> tape := tape',
            tape_position := tape_position',
            current_state := current_state',
            mem_cache := mem_cache',
            instant_descriptions := instant_descriptions s @ [id_str],
            applied := applied s + 1 \<rparr>)"

text \<open>How one pass through the loop body ends.\<close>

datatype iteration =
    Raise error
  | Break run_state
  | Return run_state
  | Continue run_state

definition loop_body :: "machine \<Rightarrow> run_state \<Rightarrow> iteration" where
  "loop_body m s =
     (let s1 = extend_tape s in
      case py_index (length (tape s1)) (tape_position s1) of
        None \<Rightarrow> Raise IndexError
      | Some i \<Rightarrow>
          (let current_symbol = tape s1 ! i in
           case find_transition m (current_state s1) (mem_cache s1) current_symbol of
             None \<Rightarrow> Break s1
           | Some t \<Rightarrow>
               (let s2 = apply_transition t i s1 in
                if current_state s2 = tm_final_state m then Return s2
                else Continue (s2\<lparr> step := step s2 + 1 \<rparr>))))"

text \<open>
  \<^verbatim>\<open>while step < max_steps\<close>. The loop returns the variables at its exit with the
  verdict; \<^verbatim>\<open>simulate\<close> returns the descriptions and the verdict.
\<close>

function simulate_loop :: "machine \<Rightarrow> run_state \<Rightarrow> error + run_state \<times> bool" where
  "simulate_loop m s =
     (if step s < max_steps then
        (case loop_body m s of
           Raise e \<Rightarrow> Inl e
         | Break s1 \<Rightarrow> Inr (s1, False)
         | Return s2 \<Rightarrow> Inr (s2, True)
         | Continue s' \<Rightarrow> simulate_loop m s')
      else Inr (s, False))"
  by pat_completeness auto
termination
  by (relation "measure (\<lambda>(m, s). max_steps - step s)")
     (auto simp: loop_body_def Let_def extend_tape_def apply_transition_def
        split: option.splits if_splits)

declare simulate_loop.simps [simp del]

definition simulate :: "machine \<Rightarrow> string \<Rightarrow> error + string list \<times> bool" where
  "simulate m input_string =
     (case simulate_loop m (initial_run m input_string) of
        Inl e \<Rightarrow> Inl e
      | Inr (s, accepted) \<Rightarrow> Inr (instant_descriptions s, accepted))"

section \<open>Notions used in the properties\<close>

text \<open>
  Inside \<^verbatim>\<open>simulate\<close> the head is never further than one cell from the
  materialised tape.
\<close>

definition head_near_tape :: "run_state \<Rightarrow> bool" where
  "head_near_tape s = (- 1 \<le> tape_position s \<and> tape_position s \<le> int (length (tape s)))"

text \<open>
  The variables at the head of the loop when its condition is tested for the
  \<open>k\<close>-th time after the first, \<open>None\<close> if the loop has ended before.
\<close>

fun loop_state_at :: "machine \<Rightarrow> string \<Rightarrow> nat \<Rightarrow> run_state option" where
  "loop_state_at m input_string 0 = Some (initial_run m input_string)"
| "loop_state_at m input_string (Suc k) =
     (case loop_state_at m input_string k of
        None \<Rightarrow> None
      | Some s \<Rightarrow>
          if step s < max_steps then
            (case loop_body m s of Continue s' \<Rightarrow> Some s' | _ \<Rightarrow> None)
          else None)"

text \<open>The symbol that the loop body reads: the cell under the head after the extension.\<close>

definition head_symbol :: "run_state \<Rightarrow> cell" where
  "head_symbol s = (let s1 = extend_tape s in tape s1 ! nat (tape_position s1))"

text \<open>
  A run in which, each time the loop body is entered, a transition matches and
  leads to a state other than the final one.
\<close>

definition keeps_running :: "machine \<Rightarrow> string \<Rightarrow> bool" where
  "keeps_running m input_string =
     (\<forall>k<max_steps.
        case loop_state_at m input_string k of
          None \<Rightarrow> False
        | Some s \<Rightarrow>
            (case find_transition m (current_state s) (mem_cache s) (head_symbol s) of
               None \<Rightarrow> False
             | Some t \<Rightarrow> final_state t \<noteq> tm_final_state m))"

subsection \<open>The two-state example\<close>

definition example_config :: config where
  "example_config =
     \<lparr> q_list = [''q0'', ''q1''], initial = ''q0'', final = ''q1'',
       alphabet = [''a''], tape_alphabet = [''a''],
       delta = [\<lparr> params_initial_state = ''q0'', params_mem_cache_value = Null,
                  params_tape_input = Str ''a'', output_final_state = ''q1'',
                  output_mem_cache_value = Null, output_tape_output = Str ''a'',
                  output_tape_displacement = ''R'' \<rparr>],
       simulation_strings = Some [''a''] \<rparr>"

definition example_machine :: machine where
  "example_machine =
     \<lparr> tm_states = [''q0'', ''q1''], tm_initial_state = ''q0'', tm_final_state = ''q1'',
       tm_alphabet = [''a''], tm_tape_alphabet = [''a''],
       tm_transitions =
         [\<lparr> initial_state = ''q0'', mem_cache_value = None, tape_input = Some ''a'',
            final_state = ''q1'', new_mem_cache_value = None, tape_output = Some ''a'',
            tape_displacement = ''R'' \<rparr>],
       tm_simulation_strings = [''a''] \<rparr>"

subsection \<open>A machine that cycles\<close>

definition cycle_machine :: machine where
  "cycle_machine =
     \<lparr> tm_states = [''q0'', ''q1''], tm_initial_state = ''q0'', tm_final_state = ''q1'',
       tm_alphabet = [''a''], tm_tape_alphabet = [''a''],
       tm_transitions =
         [\<lparr> initial_state = ''q0'', mem_cache_value = None, tape_input = Some ''a'',
            final_state = ''q0'', new_mem_cache_value = None, tape_output = Some ''a'',
            tape_displacement = ''S'' \<rparr>],
       tm_simulation_strings = [] \<rparr>"

subsection \<open>A machine whose initial state is its final state\<close>

definition start_final_machine :: machine where
  "start_final_machine =
     \<lparr> tm_states = [''q0''], tm_initial_state = ''q0'', tm_final_state = ''q0'',
       tm_alphabet = [''a'', ''b''], tm_tape_alphabet = [''a'', ''b''],
       tm_transitions =
         [\<lparr> initial_state = ''q0'', mem_cache_value = None, tape_input = Some ''b'',
            final_state = ''q0'', new_mem_cache_value = None, tape_output = Some ''b'',
            tape_displacement = ''R'' \<rparr>],
       tm_simulation_strings = [] \<rparr>"

subsection \<open>The matching rule as specified\<close>

text \<open>Blank-normalised equality, in the words of the specification.\<close>

definition normalize_blank :: "string option \<Rightarrow> string option" where
  "normalize_blank v = (if v = Some [] then None else v)"

definition spec_matches :: "transition \<Rightarrow> string \<Rightarrow> string option \<Rightarrow> string option \<Rightarrow> bool"
  where
  "spec_matches t state cache symbol =
     (initial_state t = state
      \<and> normalize_blank (mem_cache_value t) = normalize_blank cache
      \<and> normalize_blank (tape_input t) = normalize_blank symbol)"

text \<open>The first entry in declaration order that matches, in the words of the specification.\<close>

definition spec_find :: "transition list \<Rightarrow> string \<Rightarrow> string option \<Rightarrow> string option
    \<Rightarrow> transition option" where
  "spec_find ts state cache symbol = List.find (\<lambda>t. spec_matches t state cache symbol) ts"

text \<open>No cache operand of the table is the empty string.\<close>

definition cache_operands_normalized :: "machine \<Rightarrow> bool" where
  "cache_operands_normalized m =
     list_all (\<lambda>t. mem_cache_value t \<noteq> Some []) (tm_transitions m)"

subsection \<open>Configurations that differ in the encoding of blank\<close>

text \<open>
  Two encodings of the same nullable entry: equal, or one is \<^verbatim>\<open>null\<close> where the
  other is the empty string.
\<close>

definition blank_equiv_value :: "yaml_value \<Rightarrow> yaml_value \<Rightarrow> bool" where
  "blank_equiv_value v w =
     (v = w \<or> (v = Null \<and> w = Str []) \<or> (v = Str [] \<and> w = Null))"

definition blank_equiv_item :: "delta_item \<Rightarrow> delta_item \<Rightarrow> bool" where
  "blank_equiv_item d e =
     (params_initial_state d = params_initial_state e
      \<and> blank_equiv_value (params_mem_cache_value d) (params_mem_cache_value e)
      \<and> blank_equiv_value (params_tape_input d) (params_tape_input e)
      \<and> output_final_state d = output_final_state e
      \<and> blank_equiv_value (output_mem_cache_value d) (output_mem_cache_value e)
      \<and> blank_equiv_value (output_tape_output d) (output_tape_output e)
      \<and> output_tape_displacement d = output_tape_displacement e)"

definition blank_equiv_config :: "config \<Rightarrow> config \<Rightarrow> bool" where
  "blank_equiv_config c1 c2 =
     (q_list c1 = q_list c2 \<and> initial c1 = initial c2 \<and> final c1 = final c2
      \<and> alphabet c1 = alphabet c2 \<and> tape_alphabet c1 = tape_alphabet c2
      \<and> list_all2 blank_equiv_item (delta c1) (delta c2)
      \<and> simulation_strings c1 = simulation_strings c2)"

definition example_config_empty :: config where
  "example_config_empty =
     \<lparr> q_list = [''q0'', ''q1''], initial = ''q0'', final = ''q1'',
       alphabet = [''a''], tape_alphabet = [''a''],
       delta = [\<lparr> params_initial_state = ''q0'', params_mem_cache_value = Str [],
                  params_tape_input = Str ''a'', output_final_state = ''q1'',
                  output_mem_cache_value = Str [], output_tape_output = Str ''a'',
                  output_tape_displacement = ''R'' \<rparr>],
       simulation_strings = Some [''a''] \<rparr>"

subsection \<open>The rendering as specified\<close>

text \<open>
  The parts of an instantaneous description, in the words of the specification:
  the cells left of the head, the marker, the cell under the head (blank outside
  the materialised tape), the cells right of the head.
\<close>

definition cells_left_of :: "cell list \<Rightarrow> int \<Rightarrow> cell list" where
  "cells_left_of cells position =
     map snd (filter (\<lambda>(i, c). int i < position) (enumerate 0 cells))"

definition cells_right_of :: "cell list \<Rightarrow> int \<Rightarrow> cell list" where
  "cells_right_of cells position =
     map snd (filter (\<lambda>(i, c). position < int i) (enumerate 0 cells))"

definition cell_under_head :: "cell list \<Rightarrow> int \<Rightarrow> cell" where
  "cell_under_head cells position =
     (if 0 \<le> position \<and> position < int (length cells) then cells ! nat position else None)"

definition marker :: "string \<Rightarrow> string option \<Rightarrow> string" where
  "marker state cache =
     (case cache of
        None \<Rightarrow> ''['' @ state @ '']''
      | Some c \<Rightarrow> ''['' @ state @ '','' @ c @ '']'')"

definition render_cells :: "cell list \<Rightarrow> string" where
  "render_cells cs = concat (map (\<lambda>c. case c of None \<Rightarrow> ''B'' | Some x \<Rightarrow> x) cs)"

subsection \<open>A machine that leaves the tape on both sides\<close>

text \<open>
  On the input \<open>a\<close> the head moves right of the tape, writes \<open>b\<close> on the new cell,
  moves back over \<open>a\<close> to the left of the tape, and writes blank on the new cell
  there.
\<close>

definition sweep_machine :: machine where
  "sweep_machine =
     \<lparr> tm_states = [''q0'', ''q1'', ''q2'', ''q3'', ''q4''], tm_initial_state = ''q0'',
       tm_final_state = ''q4'',
       tm_alphabet = [''a'', ''b''], tm_tape_alphabet = [''a'', ''b''],
       tm_transitions =
         [\<lparr> initial_state = ''q0'', mem_cache_value = None, tape_input = Some ''a'',
            final_state = ''q1'', new_mem_cache_value = None, tape_output = Some ''a'',
            tape_displacement = ''R'' \<rparr>,
          \<lparr> initial_state = ''q1'', mem_cache_value = None, tape_input = None,
            final_state = ''q2'', new_mem_cache_value = None, tape_output = Some ''b'',
            tape_displacement = ''L'' \<rparr>,
          \<lparr> initial_state = ''q2'', mem_cache_value = None, tape_input = Some ''a'',
            final_state = ''q3'', new_mem_cache_value = None, tape_output = Some ''a'',
            tape_displacement = ''L'' \<rparr>,
          \<lparr> initial_state = ''q3'', mem_cache_value = None, tape_input = None,
            final_state = ''q4'', new_mem_cache_value = None, tape_output = None,
            tape_displacement = ''S'' \<rparr>],
       tm_simulation_strings = [] \<rparr>"

text \<open>
  Its variables when the loop condition is tested for the second, third and
  fourth time: head right of the tape, head on the tape, head left of the tape.
\<close>

definition right_state :: run_state where
  "right_state =
     \<lparr> tape = [Some ''a''], tape_position = 1, current_state = ''q1'', mem_cache = None,
       instant_descriptions = [''[q0]a'', ''a[q1]B''], step = 1, applied = 1 \<rparr>"

definition inner_state :: run_state where
  "inner_state =
     \<lparr> tape = [Some ''a'', Some ''b''], tape_position = 0, current_state = ''q2'',
       mem_cache = None,
       instant_descriptions = [''[q0]a'', ''a[q1]B'', ''[q2]ab''], step = 2, applied = 2 \<rparr>"

definition left_state :: run_state where
  "left_state =
     \<lparr> tape = [Some ''a'', Some ''b''], tape_position = - 1, current_state = ''q3'',
       mem_cache = None,
       instant_descriptions = [''[q0]a'', ''a[q1]B'', ''[q2]ab'', ''[q3]Bab''],
       step = 3, applied = 3 \<rparr>"

section \<open>Properties of the loop\<close>

lemma loop_body_Continue_step:
  "loop_body m s = Continue s' \<Longrightarrow> step s' = step s + 1"
  by (auto simp: loop_body_def Let_def extend_tape_def apply_transition_def
      split: option.splits if_splits)

lemma extend_tape_in_range:
  assumes "head_near_tape s"
  shows "0 \<le> tape_position (extend_tape s)"
    and "tape_position (extend_tape s) < int (length (tape (extend_tape s)))"
  using assms by (auto simp: head_near_tape_def extend_tape_def)

lemma extend_tape_index:
  "head_near_tape s \<Longrightarrow>
   py_index (length (tape (extend_tape s))) (tape_position (extend_tape s))
     = Some (nat (tape_position (extend_tape s)))"
  using extend_tape_in_range [of s] by (simp add: py_index_def)

lemma extend_tape_fields [simp]:
  "current_state (extend_tape s) = current_state s"
  "mem_cache (extend_tape s) = mem_cache s"
  "instant_descriptions (extend_tape s) = instant_descriptions s"
  "step (extend_tape s) = step s"
  "applied (extend_tape s) = applied s"
  by (simp_all add: extend_tape_def)

lemma apply_transition_fields [simp]:
  "current_state (apply_transition t i s) = final_state t"
  "mem_cache (apply_transition t i s) = new_mem_cache_value t"
  "step (apply_transition t i s) = step s"
  "applied (apply_transition t i s) = applied s + 1"
  "length (tape (apply_transition t i s)) = length (tape s)"
  "length (instant_descriptions (apply_transition t i s)) = length (instant_descriptions s) + 1"
  by (simp_all add: apply_transition_def Let_def split: option.splits)

lemma apply_transition_position:
  "tape_position (apply_transition t i s) =
     (if tape_displacement t = ''L'' then tape_position s - 1
      else if tape_displacement t = ''R'' then tape_position s + 1
      else tape_position s)"
  by (simp add: apply_transition_def Let_def)

lemma apply_transition_descriptions:
  "\<exists>d. instant_descriptions (apply_transition t i s) = instant_descriptions s @ [d]"
  by (simp add: apply_transition_def Let_def)

lemma apply_transition_near:
  assumes "0 \<le> tape_position s" "tape_position s < int (length (tape s))"
  shows "head_near_tape (apply_transition t i s)"
  using assms by (simp add: head_near_tape_def apply_transition_position)

text \<open>The four ways out of the loop body, read off its definition.\<close>

lemma loop_body_cases:
  assumes "head_near_tape s"
  obtains
    (Break) "loop_body m s = Break (extend_tape s)"
      "find_transition m (current_state s) (mem_cache s)
         (tape (extend_tape s) ! nat (tape_position (extend_tape s))) = None"
  | (Return) t where "loop_body m s =
        Return (apply_transition t (nat (tape_position (extend_tape s))) (extend_tape s))"
      "find_transition m (current_state s) (mem_cache s)
         (tape (extend_tape s) ! nat (tape_position (extend_tape s))) = Some t"
      "final_state t = tm_final_state m"
  | (Continue) t where "loop_body m s =
        Continue ((apply_transition t (nat (tape_position (extend_tape s))) (extend_tape s))
                    \<lparr> step := step s + 1 \<rparr>)"
      "find_transition m (current_state s) (mem_cache s)
         (tape (extend_tape s) ! nat (tape_position (extend_tape s))) = Some t"
      "final_state t \<noteq> tm_final_state m"
proof (cases "find_transition m (current_state s) (mem_cache s)
         (tape (extend_tape s) ! nat (tape_position (extend_tape s)))")
  case None
  then show ?thesis
    using Break extend_tape_index [OF assms] by (simp add: loop_body_def Let_def)
next
  case (Some t)
  show ?thesis
  proof (cases "final_state t = tm_final_state m")
    case True
    then show ?thesis
      using Return [of t] Some extend_tape_index [OF assms]
      by (simp add: loop_body_def Let_def)
  next
    case False
    then show ?thesis
      using Continue [of t] Some extend_tape_index [OF assms]
      by (simp add: loop_body_def Let_def)
  qed
qed

lemma head_near_tape_initial: "head_near_tape (initial_run m input_string)"
  by (simp add: head_near_tape_def initial_run_def)

lemma loop_body_Continue_near:
  assumes "head_near_tape s" "loop_body m s = Continue s'"
  shows "head_near_tape s'"
  using assms(1)
proof (cases rule: loop_body_cases [of s m])
  case (Continue t)
  with assms(2) have "s' = (apply_transition t (nat (tape_position (extend_tape s)))
      (extend_tape s))\<lparr> step := step s + 1 \<rparr>" by simp
  moreover have "head_near_tape (apply_transition t (nat (tape_position (extend_tape s)))
      (extend_tape s))"
    using extend_tape_in_range [OF assms(1)] by (rule apply_transition_near)
  ultimately show ?thesis by (simp add: head_near_tape_def)
qed (use assms(2) in simp_all)

lemma loop_body_no_raise: "head_near_tape s \<Longrightarrow> loop_body m s \<noteq> Raise e"
  by (erule loop_body_cases [of s m]) simp_all

lemma simulate_loop_returns:
  "head_near_tape s \<Longrightarrow> \<exists>r. simulate_loop m s = Inr r"
proof (induction m s rule: simulate_loop.induct)
  case (1 m s)
  show ?case
  proof (cases "step s < max_steps")
    case False
    then show ?thesis by (auto simp: simulate_loop.simps [of m s])
  next
    case True
    from "1.prems" show ?thesis
    proof (cases rule: loop_body_cases [of s m])
      case Break
      with True show ?thesis by (auto simp: simulate_loop.simps [of m s])
    next
      case (Return t)
      with True show ?thesis by (auto simp: simulate_loop.simps [of m s])
    next
      case (Continue t)
      with True "1.IH" loop_body_Continue_near [OF "1.prems"] show ?thesis
        by (simp add: simulate_loop.simps [of m s])
    qed
  qed
qed


text \<open>An invariant rule for the loop, in the style of the rule for \<open>while\<close>.\<close>

lemma simulate_loop_rule:
  assumes "simulate_loop m s = Inr (sf, accepted)"
    and "I s"
    and "\<And>s s'. I s \<Longrightarrow> step s < max_steps \<Longrightarrow> loop_body m s = Continue s' \<Longrightarrow> I s'"
    and "\<And>s s1. I s \<Longrightarrow> step s < max_steps \<Longrightarrow> loop_body m s = Break s1 \<Longrightarrow> Q s1 False"
    and "\<And>s s2. I s \<Longrightarrow> step s < max_steps \<Longrightarrow> loop_body m s = Return s2 \<Longrightarrow> Q s2 True"
    and "\<And>s. I s \<Longrightarrow> \<not> step s < max_steps \<Longrightarrow> Q s False"
  shows "Q sf accepted"
  using assms
proof (induction m s rule: simulate_loop.induct)
  case (1 m s)
  note run = "1.prems"(1) and inv = "1.prems"(2)
  show ?case
  proof (cases "step s < max_steps")
    case False
    with run "1.prems"(6) [OF inv False] show ?thesis
      by (simp add: simulate_loop.simps [of m s])
  next
    case True
    show ?thesis
    proof (cases "loop_body m s")
      case (Raise e)
      with True run show ?thesis by (simp add: simulate_loop.simps [of m s])
    next
      case (Break s1)
      with True run "1.prems"(4) [OF inv True Break] show ?thesis
        by (simp add: simulate_loop.simps [of m s])
    next
      case (Return s2)
      with True run "1.prems"(5) [OF inv True Return] show ?thesis
        by (simp add: simulate_loop.simps [of m s])
    next
      case (Continue s')
      with True run have "simulate_loop m s' = Inr (sf, accepted)"
        by (simp add: simulate_loop.simps [of m s])
      moreover have "I s'" by (rule "1.prems"(3) [OF inv True Continue])
      ultimately show ?thesis
        by (rule "1.IH" [OF True Continue _ _ "1.prems"(3-6)])
    qed
  qed
qed

lemma simulate_loop_initial:
  "\<exists>sf accepted. simulate_loop m (initial_run m input_string) = Inr (sf, accepted)"
  using simulate_loop_returns [OF head_near_tape_initial, of m m input_string] by auto

lemma simulate_eq:
  "simulate_loop m (initial_run m input_string) = Inr (sf, accepted) \<Longrightarrow>
   simulate m input_string = Inr (instant_descriptions sf, accepted)"
  by (simp add: simulate_def)

lemma loop_body_descriptions:
  assumes "loop_body m s = Continue s' \<or> loop_body m s = Return s'"
  shows "applied s' = applied s + 1
    \<and> (\<exists>d. instant_descriptions s' = instant_descriptions s @ [d])"
  using assms
  by (auto simp: loop_body_def apply_transition_def Let_def split: option.splits if_splits)

lemma loop_body_Break:
  assumes "loop_body m s = Break s1"
  shows "s1 = extend_tape s" and "loop_body m s1 = Break s1"
proof -
  show eq: "s1 = extend_tape s"
    using assms by (auto simp: loop_body_def Let_def split: option.splits if_splits)
  have "py_index (length (tape s1)) (tape_position s1) \<noteq> None"
    using assms unfolding eq by (auto simp: loop_body_def Let_def split: option.splits)
  moreover have "0 \<le> tape_position s1"
    unfolding eq by (simp add: extend_tape_def)
  ultimately have "extend_tape s1 = s1"
    by (auto simp: py_index_def extend_tape_def Let_def split: if_splits)
  then show "loop_body m s1 = Break s1"
    using assms unfolding eq by (auto simp: loop_body_def Let_def split: option.splits if_splits)
qed

section \<open>The example run\<close>

lemmas run_defs =
  simulate_def initial_run_def input_tape_def loop_body_def extend_tape_def py_index_def
  apply_transition_def find_transition_def create_instant_description_def
  join_symbols_def state_part_def max_steps_def Let_def

text \<open>
  Claim C1. The configuration with states \<open>q0\<close>, \<open>q1\<close>, initial state \<open>q0\<close>, final
  state \<open>q1\<close> and the single transition from \<open>q0\<close>, blank cache, symbol \<open>a\<close> to
  \<open>q1\<close>, blank cache, symbol \<open>a\<close>, move right, builds the example machine, and
  \<^verbatim>\<open>simulate\<close> on the input \<open>a\<close> returns the trace \<open>[q0]a\<close>, \<open>a[q1]B\<close> and the
  verdict accepted.
\<close>

theorem example_run_C1:
  "TuringMachine_init example_config = Inr example_machine
   \<and> simulate example_machine ''a'' = Inr ([''[q0]a'', ''a[q1]B''], True)"
proof
  show "TuringMachine_init example_config = Inr example_machine"
    by (simp add: TuringMachine_init_def example_config_def example_machine_def
        make_transition_def)
  show "simulate example_machine ''a'' = Inr ([''[q0]a'', ''a[q1]B''], True)"
    by (simp add: simulate_loop.simps run_defs example_machine_def)
qed

section \<open>Length and first entry of the trace\<close>

lemma run_trace:
  assumes run: "simulate_loop m (initial_run m input_string) = Inr (sf, accepted)"
  shows "length (instant_descriptions sf) = applied sf + 1
    \<and> hd (instant_descriptions sf) =
        create_instant_description (input_tape input_string) 0 (tm_initial_state m) None"
proof -
  let ?d0 = "create_instant_description (input_tape input_string) 0 (tm_initial_state m) None"
  let ?I = "\<lambda>s. length (instant_descriptions s) = applied s + 1
              \<and> hd (instant_descriptions s) = ?d0"
  have "(\<lambda>s (b::bool). ?I s) sf accepted"
  proof (rule simulate_loop_rule [OF run, where I = ?I])
    show "?I (initial_run m input_string)" by (simp add: initial_run_def)
  next
    fix s s' assume "?I s" "loop_body m s = Continue s'"
    then show "?I s'" using loop_body_descriptions [of m s s']
      by (cases "instant_descriptions s") auto
  next
    fix s s1 assume "?I s" "loop_body m s = Break s1"
    then show "?I s1" using loop_body_Break(1) [of m s s1] by simp
  next
    fix s s2 assume "?I s" "loop_body m s = Return s2"
    then show "?I s2" using loop_body_descriptions [of m s s2]
      by (cases "instant_descriptions s") auto
  next
    fix s assume "?I s" then show "?I s" .
  qed
  then show ?thesis .
qed


section \<open>The verdict\<close>

text \<open>
  Claim C3. For every machine and every input, \<^verbatim>\<open>simulate\<close> returns its result
  as data and raises nothing. The verdict is accepted exactly when at least one
  transition was applied and the current state at the exit is the final state;
  a run that is not accepted ended because no transition matched (the loop body
  breaks at the exit state) or because the step counter reached the bound.
\<close>

theorem verdict_C3:
  "\<exists>sf accepted.
     simulate_loop m (initial_run m input_string) = Inr (sf, accepted)
     \<and> simulate m input_string = Inr (instant_descriptions sf, accepted)
     \<and> accepted = (0 < applied sf \<and> current_state sf = tm_final_state m)
     \<and> (accepted \<or> loop_body m sf = Break sf \<or> step sf = max_steps)"
proof -
  let ?I = "\<lambda>s. step s \<le> max_steps
              \<and> (applied s = 0 \<or> current_state s \<noteq> tm_final_state m)"
  let ?Q = "\<lambda>s accepted.
              accepted = (0 < applied s \<and> current_state s = tm_final_state m)
              \<and> (accepted \<or> loop_body m s = Break s \<or> step s = max_steps)"
  obtain sf accepted
    where run: "simulate_loop m (initial_run m input_string) = Inr (sf, accepted)"
    using simulate_loop_initial by blast
  have "?Q sf accepted"
  proof (rule simulate_loop_rule [OF run, where I = ?I])
    show "?I (initial_run m input_string)" by (simp add: initial_run_def)
  next
    fix s s' assume "?I s" "step s < max_steps" "loop_body m s = Continue s'"
    then show "?I s'"
      by (auto simp: loop_body_def Let_def split: option.splits if_splits)
  next
    fix s s1 assume "?I s" "loop_body m s = Break s1"
    then show "?Q s1 False" using loop_body_Break [of m s s1] by auto
  next
    fix s s2 assume "loop_body m s = Return s2"
    then show "?Q s2 True"
      by (auto simp: loop_body_def Let_def split: option.splits if_splits)
  next
    fix s :: run_state assume "?I s" "\<not> step s < max_steps"
    then show "?Q s False" by auto
  qed
  with run simulate_eq [OF run] show ?thesis by blast
qed

section \<open>The step bound\<close>

lemma loop_state_at_near:
  "loop_state_at m input_string k = Some s \<Longrightarrow> head_near_tape s"
proof (induction k arbitrary: s)
  case 0
  then show ?case using head_near_tape_initial [of m input_string] by simp
next
  case (Suc k)
  then show ?case
    by (auto split: option.splits if_splits iteration.splits
        intro: loop_body_Continue_near)
qed

text \<open>
  The ghost counter and \<^verbatim>\<open>step\<close> agree at the head of the loop: the \<open>k\<close>-th state
  is reached after \<open>k\<close> applied transitions.
\<close>

lemma loop_state_at_counters:
  "loop_state_at m input_string k = Some s \<Longrightarrow> step s = k \<and> applied s = k"
proof (induction k arbitrary: s)
  case 0
  then show ?case by (auto simp: initial_run_def)
next
  case (Suc k)
  then obtain s1 where s1: "loop_state_at m input_string k = Some s1"
    and body: "loop_body m s1 = Continue s"
    by (auto split: option.splits if_splits iteration.splits)
  from Suc.IH [OF s1] loop_body_Continue_step [OF body] loop_body_descriptions [of m s1 s] body
  show ?case by simp
qed

lemma run_within_bound:
  assumes run: "simulate_loop m (initial_run m input_string) = Inr (sf, accepted)"
  shows "applied sf \<le> max_steps"
proof -
  let ?I = "\<lambda>s. applied s = step s \<and> step s \<le> max_steps"
  have "(\<lambda>s (b::bool). applied s \<le> max_steps) sf accepted"
  proof (rule simulate_loop_rule [OF run, where I = ?I])
    show "?I (initial_run m input_string)" by (simp add: initial_run_def)
  next
    fix s s' assume "?I s" "step s < max_steps" "loop_body m s = Continue s'"
    then show "?I s'"
      using loop_body_descriptions [of m s s'] loop_body_Continue_step [of m s s'] by simp
  next
    fix s s1 assume "?I s" "loop_body m s = Break s1"
    then show "applied s1 \<le> max_steps" using loop_body_Break(1) [of m s s1] by simp
  next
    fix s s2 assume "?I s" "step s < max_steps" "loop_body m s = Return s2"
    then show "applied s2 \<le> max_steps" using loop_body_descriptions [of m s s2] by simp
  next
    fix s :: run_state assume "?I s"
    then show "applied s \<le> max_steps" by simp
  qed
  then show ?thesis .
qed

lemma keeps_running_Continue:
  assumes "keeps_running m input_string" "k < max_steps"
  obtains s s' where "loop_state_at m input_string k = Some s" "loop_body m s = Continue s'"
proof -
  from assms have *: "case loop_state_at m input_string k of
          None \<Rightarrow> False
        | Some s \<Rightarrow>
            (case find_transition m (current_state s) (mem_cache s) (head_symbol s) of
               None \<Rightarrow> False
             | Some t \<Rightarrow> final_state t \<noteq> tm_final_state m)"
    unfolding keeps_running_def by blast
  then obtain s where s: "loop_state_at m input_string k = Some s"
    by (cases "loop_state_at m input_string k") auto
  with * obtain t
    where t: "find_transition m (current_state s) (mem_cache s) (head_symbol s) = Some t"
      and nf: "final_state t \<noteq> tm_final_state m"
    by (cases "find_transition m (current_state s) (mem_cache s) (head_symbol s)") auto
  from loop_state_at_near [OF s] show ?thesis
  proof (cases rule: loop_body_cases [of s m])
    case Break
    with t show ?thesis by (simp add: head_symbol_def Let_def)
  next
    case (Return t')
    with t nf show ?thesis by (simp add: head_symbol_def Let_def)
  next
    case (Continue t')
    with s that show ?thesis by blast
  qed
qed

lemma run_to_bound:
  assumes keeps: "keeps_running m input_string"
    and run: "simulate_loop m (initial_run m input_string) = Inr (sf, accepted)"
  shows "\<not> accepted \<and> applied sf = max_steps"
proof -
  let ?I = "\<lambda>s. loop_state_at m input_string (step s) = Some s
              \<and> applied s = step s \<and> step s \<le> max_steps"
  let ?Q = "\<lambda>s accepted. \<not> accepted \<and> applied s = max_steps"
  have "?Q sf accepted"
  proof (rule simulate_loop_rule [OF run, where I = ?I])
    show "?I (initial_run m input_string)" by (simp add: initial_run_def)
  next
    fix s s' assume "?I s" "step s < max_steps" "loop_body m s = Continue s'"
    then show "?I s'"
      using loop_body_descriptions [of m s s'] loop_body_Continue_step [of m s s'] by simp
  next
    fix s s1 assume "?I s" "step s < max_steps" "loop_body m s = Break s1"
    then show "?Q s1 False"
      using keeps_running_Continue [OF keeps, of "step s"] by force
  next
    fix s s2 assume "?I s" "step s < max_steps" "loop_body m s = Return s2"
    then show "?Q s2 True"
      using keeps_running_Continue [OF keeps, of "step s"] by force
  next
    fix s :: run_state assume "?I s" "\<not> step s < max_steps"
    then show "?Q s False" by simp
  qed
  then show ?thesis .
qed

text \<open>
  Claim C4. For every machine and every input, \<^verbatim>\<open>simulate\<close> returns after
  applying at most 10000 transitions. On a run in which a transition always
  matches and the state reached is never the final state, it applies exactly
  10000 transitions and returns the verdict rejected with a trace of 10001 entries.
\<close>

theorem step_bound_C4:
  "(\<exists>sf accepted.
      simulate_loop m (initial_run m input_string) = Inr (sf, accepted)
      \<and> simulate m input_string = Inr (instant_descriptions sf, accepted)
      \<and> applied sf \<le> max_steps \<and> max_steps = 10000)
   \<and> (keeps_running m input_string \<longrightarrow>
        (\<exists>sf. simulate_loop m (initial_run m input_string) = Inr (sf, False)
           \<and> simulate m input_string = Inr (instant_descriptions sf, False)
           \<and> applied sf = max_steps
           \<and> length (instant_descriptions sf) = 10001))"
proof -
  obtain sf accepted
    where run: "simulate_loop m (initial_run m input_string) = Inr (sf, accepted)"
    using simulate_loop_initial by blast
  have "applied sf \<le> max_steps" by (rule run_within_bound [OF run])
  moreover have "\<not> accepted \<and> applied sf = max_steps
      \<and> length (instant_descriptions sf) = 10001" if "keeps_running m input_string"
    using run_to_bound [OF that run] run_trace [OF run] by (simp add: max_steps_def)
  ultimately show ?thesis
    using run simulate_eq [OF run] by (auto simp: max_steps_def)
qed


lemma cycle_machine_state:
  "k \<le> max_steps \<Longrightarrow>
   loop_state_at cycle_machine ''a'' k =
     Some \<lparr> tape = [Some ''a''], tape_position = 0, current_state = ''q0'',
            mem_cache = None, instant_descriptions = replicate (Suc k) ''[q0]a'',
            step = k, applied = k \<rparr>"
proof (induction k)
  case 0
  show ?case by (simp add: run_defs cycle_machine_def)
next
  case (Suc k)
  then have "k < max_steps" by simp
  with Suc show ?case
    by (simp add: loop_body_def extend_tape_def py_index_def apply_transition_def
        find_transition_def create_instant_description_def join_symbols_def state_part_def
        Let_def cycle_machine_def replicate_append_same)
qed

lemma cycle_machine_keeps_running: "keeps_running cycle_machine ''a''"
  unfolding keeps_running_def
proof (intro allI impI)
  fix k assume "k < max_steps"
  then have "k \<le> max_steps" by simp
  from cycle_machine_state [OF this] show "case loop_state_at cycle_machine ''a'' k of
      None \<Rightarrow> False
    | Some s \<Rightarrow>
        (case find_transition cycle_machine (current_state s) (mem_cache s) (head_symbol s) of
           None \<Rightarrow> False
         | Some t \<Rightarrow> final_state t \<noteq> tm_final_state cycle_machine)"
    by (simp add: head_symbol_def extend_tape_def find_transition_def cycle_machine_def)
qed

theorem step_bound_C4_witness:
  "keeps_running cycle_machine ''a''
   \<and> (\<exists>trace. simulate cycle_machine ''a'' = Inr (trace, False) \<and> length trace = 10001)"
  using step_bound_C4 [of cycle_machine "''a''"] cycle_machine_keeps_running by blast

section \<open>Runs that stop at the initial configuration\<close>

lemma head_symbol_initial:
  "head_symbol (initial_run m input_string) =
     (case input_string of [] \<Rightarrow> None | c # _ \<Rightarrow> Some [c])"
  by (simp add: head_symbol_def initial_run_def extend_tape_def input_tape_def
      split: list.splits)

lemma loop_body_no_transition:
  assumes "head_near_tape s"
    and "find_transition m (current_state s) (mem_cache s) (head_symbol s) = None"
  shows "loop_body m s = Break (extend_tape s)"
  using assms(1)
  by (cases rule: loop_body_cases [of s m])
     (use assms(2) in \<open>simp_all add: head_symbol_def Let_def\<close>)

lemma simulate_no_first_transition:
  assumes "find_transition m (tm_initial_state m) None
      (head_symbol (initial_run m input_string)) = None"
  shows "simulate m input_string =
    Inr ([create_instant_description (input_tape input_string) 0 (tm_initial_state m) None],
         False)"
proof -
  let ?s = "initial_run m input_string"
  have "loop_body m ?s = Break (extend_tape ?s)"
    using head_near_tape_initial assms
    by (intro loop_body_no_transition) (simp_all add: initial_run_def)
  moreover have "step ?s < max_steps" by (simp add: initial_run_def max_steps_def)
  ultimately have "simulate_loop m ?s = Inr (extend_tape ?s, False)"
    by (simp add: simulate_loop.simps [of m ?s])
  then show ?thesis by (simp add: simulate_def initial_run_def)
qed

text \<open>
  Claim C7. For every machine and every non-empty input such that no transition
  matches the initial state, the blank cache and the first input symbol,
  \<^verbatim>\<open>simulate\<close> returns the trace that holds the initial description only, and the
  verdict rejected.
\<close>

theorem no_first_transition_C7:
  assumes "input_string \<noteq> []"
    and "find_transition m (tm_initial_state m) None (Some [hd input_string]) = None"
  shows "simulate m input_string =
    Inr ([create_instant_description (input_tape input_string) 0 (tm_initial_state m) None],
         False)"
  using assms simulate_no_first_transition [of m input_string]
  by (cases input_string) (simp_all add: head_symbol_initial)

theorem no_first_transition_C7_witness:
  "''b'' \<noteq> []
   \<and> find_transition example_machine (tm_initial_state example_machine) None
        (Some [hd ''b'']) = None
   \<and> simulate example_machine ''b'' = Inr ([''[q0]b''], False)"
proof -
  have n: "''b'' \<noteq> []" by simp
  have f: "find_transition example_machine (tm_initial_state example_machine) None
      (Some [hd ''b'']) = None"
    by (simp add: find_transition_def example_machine_def)
  from no_first_transition_C7 [OF n f] n f show ?thesis
    by (simp add: example_machine_def input_tape_def create_instant_description_def
        join_symbols_def state_part_def)
qed

section \<open>No acceptance before the first transition\<close>

lemma run_accepted_applied:
  assumes run: "simulate_loop m (initial_run m input_string) = Inr (sf, accepted)"
  shows "accepted = (0 < applied sf \<and> current_state sf = tm_final_state m)"
proof -
  let ?I = "\<lambda>s. applied s = 0 \<or> current_state s \<noteq> tm_final_state m"
  let ?Q = "\<lambda>s accepted. accepted = (0 < applied s \<and> current_state s = tm_final_state m)"
  have "?Q sf accepted"
  proof (rule simulate_loop_rule [OF run, where I = ?I])
    show "?I (initial_run m input_string)" by (simp add: initial_run_def)
  next
    fix s s' assume "loop_body m s = Continue s'"
    then show "?I s'"
      by (auto simp: loop_body_def Let_def split: option.splits if_splits)
  next
    fix s s1 assume "?I s" "loop_body m s = Break s1"
    then show "?Q s1 False" using loop_body_Break [of m s s1] by auto
  next
    fix s s2 assume "loop_body m s = Return s2"
    then show "?Q s2 True"
      by (auto simp: loop_body_def Let_def split: option.splits if_splits)
  next
    fix s :: run_state assume "?I s"
    then show "?Q s False" by auto
  qed
  then show ?thesis .
qed

text \<open>
  Claim C10. The test for the final state comes after a transition has been
  applied: when the initial state is the final state and no transition matches
  the initial configuration, \<^verbatim>\<open>simulate\<close> returns the one-entry trace and the
  verdict rejected; and every accepted run has applied at least one transition.
\<close>

theorem no_acceptance_at_start_C10:
  "(tm_initial_state m = tm_final_state m
      \<and> find_transition m (tm_initial_state m) None
           (head_symbol (initial_run m input_string)) = None
    \<longrightarrow> simulate m input_string =
          Inr ([create_instant_description (input_tape input_string) 0
                  (tm_initial_state m) None], False))
   \<and> (\<forall>sf. simulate_loop m (initial_run m input_string) = Inr (sf, True)
          \<longrightarrow> 0 < applied sf)"
  using simulate_no_first_transition [of m input_string]
    run_accepted_applied [of m input_string]
  by blast

theorem no_acceptance_at_start_C10_witness:
  "tm_initial_state start_final_machine = tm_final_state start_final_machine
   \<and> find_transition start_final_machine (tm_initial_state start_final_machine) None
        (head_symbol (initial_run start_final_machine ''a'')) = None
   \<and> simulate start_final_machine ''a'' = Inr ([''[q0]a''], False)
   \<and> (\<exists>sf. simulate_loop start_final_machine (initial_run start_final_machine ''b'')
               = Inr (sf, True) \<and> 0 < applied sf)"
proof -
  have i: "tm_initial_state start_final_machine = tm_final_state start_final_machine"
    by (simp add: start_final_machine_def)
  have f: "find_transition start_final_machine (tm_initial_state start_final_machine) None
      (head_symbol (initial_run start_final_machine ''a'')) = None"
    by (simp add: head_symbol_initial find_transition_def start_final_machine_def)
  have "\<exists>sf. simulate_loop start_final_machine (initial_run start_final_machine ''b'')
      = Inr (sf, True)"
    by (simp add: simulate_loop.simps run_defs start_final_machine_def)
  then obtain sf
    where r: "simulate_loop start_final_machine (initial_run start_final_machine ''b'')
      = Inr (sf, True)" ..
  from no_acceptance_at_start_C10 [of start_final_machine "''b''"] r
  have "\<exists>sf. simulate_loop start_final_machine (initial_run start_final_machine ''b'')
      = Inr (sf, True) \<and> 0 < applied sf" by blast
  moreover from no_acceptance_at_start_C10 [of start_final_machine "''a''"] i f
  have "simulate start_final_machine ''a'' = Inr ([''[q0]a''], False)"
    by (simp add: start_final_machine_def input_tape_def create_instant_description_def
        join_symbols_def state_part_def)
  ultimately show ?thesis using i f by blast
qed

section \<open>The matching rule of the transition table\<close>

lemma find_in_literal:
  "find_in ts state cache symbol =
     List.find (\<lambda>t. initial_state t = state \<and> mem_cache_value t = cache
                  \<and> normalize_blank (tape_input t) = symbol) ts"
  by (induction ts) (auto simp: normalize_blank_def Let_def)

lemma make_transition_cache:
  "make_transition d = Inr t \<Longrightarrow> mem_cache_value t \<noteq> Some []"
  by (cases "params_mem_cache_value d")
     (auto simp: make_transition_def Let_def split: sum.splits if_splits)

lemma build_transitions_cache:
  "build_transitions ds = Inr ts \<Longrightarrow> list_all (\<lambda>t. mem_cache_value t \<noteq> Some []) ts"
  by (induction ds arbitrary: ts)
     (auto split: sum.splits dest: make_transition_cache)

lemma TuringMachine_init_normalized:
  "TuringMachine_init cfg = Inr m \<Longrightarrow> cache_operands_normalized m"
  by (auto simp: TuringMachine_init_def cache_operands_normalized_def
      split: sum.splits dest: build_transitions_cache)

lemma spec_find_first:
  "spec_find ts state cache symbol = Some t \<longleftrightarrow>
     (\<exists>i<length ts. ts ! i = t \<and> spec_matches t state cache symbol
        \<and> (\<forall>j<i. \<not> spec_matches (ts ! j) state cache symbol))"
  by (auto simp: spec_find_def find_Some_iff)

lemma spec_find_none:
  "spec_find ts state cache symbol = None \<longleftrightarrow>
     (\<forall>t \<in> set ts. \<not> spec_matches t state cache symbol)"
  by (auto simp: spec_find_def find_None_iff)

text \<open>
  Claim C5, as stated, fails: with the empty string as the cache argument the
  only entry of the example machine matches under blank-normalised equality, and
  \<^verbatim>\<open>find_transition\<close> returns \<^verbatim>\<open>None\<close>, because it compares the cache argument
  with the stored operand as it is.
\<close>

theorem find_transition_counterexample_C5:
  "find_transition example_machine ''q0'' (Some []) (Some ''a'') = None
   \<and> spec_find (tm_transitions example_machine) ''q0'' (Some []) (Some ''a'')
       = Some \<lparr> initial_state = ''q0'', mem_cache_value = None, tape_input = Some ''a'',
                 final_state = ''q1'', new_mem_cache_value = None, tape_output = Some ''a'',
                 tape_displacement = ''R'' \<rparr>"
  by (simp add: find_transition_def spec_find_def spec_matches_def normalize_blank_def
      example_machine_def)

text \<open>
  Claim C5, amended. For every state, for every cache value and tape symbol
  other than the empty string, and for every table none of whose cache operands
  is the empty string (as in every machine that the constructor builds),
  \<^verbatim>\<open>find_transition\<close> returns the earliest entry in declaration order that
  matches under blank-normalised equality, and \<^verbatim>\<open>None\<close> when no entry matches.
\<close>

theorem find_transition_C5:
  assumes "cache_operands_normalized m"
    and "cache \<noteq> Some []" and "symbol \<noteq> Some []"
  shows "find_transition m state cache symbol
    = spec_find (tm_transitions m) state cache symbol"
proof -
  have "List.find (\<lambda>t. initial_state t = state \<and> mem_cache_value t = cache
                  \<and> normalize_blank (tape_input t) = symbol) ts
      = List.find (\<lambda>t. spec_matches t state cache symbol) ts"
    if "list_all (\<lambda>t. mem_cache_value t \<noteq> Some []) ts" for ts
    using that assms(2,3)
    by (induction ts) (auto simp: spec_matches_def normalize_blank_def)
  with assms(1) show ?thesis
    by (simp add: find_transition_def find_in_literal spec_find_def
        cache_operands_normalized_def)
qed

theorem find_transition_C5_witness:
  "cache_operands_normalized example_machine
   \<and> (None :: string option) \<noteq> Some [] \<and> Some ''a'' \<noteq> Some []
   \<and> find_transition example_machine ''q0'' None (Some ''a'')
       = spec_find (tm_transitions example_machine) ''q0'' None (Some ''a'')
   \<and> find_transition example_machine ''q0'' None (Some ''a'')
       = Some \<lparr> initial_state = ''q0'', mem_cache_value = None, tape_input = Some ''a'',
                 final_state = ''q1'', new_mem_cache_value = None, tape_output = Some ''a'',
                 tape_displacement = ''R'' \<rparr>"
proof -
  have n: "cache_operands_normalized example_machine"
    by (simp add: cache_operands_normalized_def example_machine_def)
  have c: "(None :: string option) \<noteq> Some []" and s: "Some ''a'' \<noteq> Some []"
    by simp_all
  from find_transition_C5 [OF n c s, of "''q0''"] n show ?thesis
    by (simp add: find_transition_def example_machine_def)
qed

section \<open>Blank equivalence of configurations\<close>

lemma blank_equiv_get: "blank_equiv_value v w \<Longrightarrow> get_blank v = get_blank w"
  by (auto simp: blank_equiv_value_def)

lemma blank_equiv_index: "blank_equiv_value v w \<Longrightarrow> index_blank v = index_blank w"
  by (auto simp: blank_equiv_value_def)

lemma blank_equiv_make:
  "blank_equiv_item d e \<Longrightarrow> make_transition d = make_transition e"
  by (simp add: blank_equiv_item_def make_transition_def
      blank_equiv_get [of "params_mem_cache_value d" "params_mem_cache_value e"]
      blank_equiv_get [of "output_mem_cache_value d" "output_mem_cache_value e"]
      blank_equiv_get [of "output_tape_output d" "output_tape_output e"]
      blank_equiv_index [of "params_tape_input d" "params_tape_input e"]
      split: sum.splits)

lemma blank_equiv_build:
  "list_all2 blank_equiv_item ds es \<Longrightarrow> build_transitions ds = build_transitions es"
  by (induction ds es rule: list_all2_induct)
     (simp_all add: blank_equiv_make split: sum.splits)

lemma blank_equiv_init:
  "blank_equiv_config c1 c2 \<Longrightarrow> TuringMachine_init c1 = TuringMachine_init c2"
  by (simp add: blank_equiv_config_def TuringMachine_init_def
      blank_equiv_build [of "delta c1" "delta c2"] split: sum.splits)

text \<open>
  Claim C6. Two configurations that are identical except that one writes a
  blank operand or result of a transition as \<^verbatim>\<open>null\<close> where the other writes the
  empty string are constructed alike, and on machines built from them
  \<^verbatim>\<open>simulate\<close> returns the same trace and the same verdict for every input.
\<close>

theorem blank_equivalence_C6:
  assumes "blank_equiv_config c1 c2"
  shows "TuringMachine_init c1 = TuringMachine_init c2
    \<and> (\<forall>m1 m2. TuringMachine_init c1 = Inr m1 \<and> TuringMachine_init c2 = Inr m2
          \<longrightarrow> m1 = m2 \<and> simulate m1 input_string = simulate m2 input_string)"
  using blank_equiv_init [OF assms] by auto

theorem blank_equivalence_C6_witness:
  "blank_equiv_config example_config example_config_empty
   \<and> TuringMachine_init example_config = Inr example_machine
   \<and> TuringMachine_init example_config_empty = Inr example_machine
   \<and> simulate example_machine ''a'' = Inr ([''[q0]a'', ''a[q1]B''], True)"
proof -
  have e: "blank_equiv_config example_config example_config_empty"
    by (simp add: blank_equiv_config_def blank_equiv_item_def blank_equiv_value_def
        example_config_def example_config_empty_def)
  have i1: "TuringMachine_init example_config = Inr example_machine"
    by (simp add: TuringMachine_init_def example_config_def example_machine_def
        make_transition_def)
  from blank_equivalence_C6 [OF e, of "''a''"] i1
  have i2: "TuringMachine_init example_config_empty = Inr example_machine" by simp
  have "simulate example_machine ''a'' = Inr ([''[q0]a'', ''a[q1]B''], True)"
    by (simp add: simulate_loop.simps run_defs example_machine_def)
  with e i1 i2 show ?thesis by simp
qed

section \<open>The renderer\<close>

lemma left_of_enumerate:
  "map snd (filter (\<lambda>(i, c). int i < p) (enumerate n xs)) = take (nat (p - int n)) xs"
proof (induction xs arbitrary: n)
  case Nil
  show ?case by simp
next
  case (Cons x xs)
  show ?case
  proof (cases "int n < p")
    case True
    then have "nat (p - int n) = Suc (nat (p - int (Suc n)))" by simp
    with True Cons [of "Suc n"] show ?thesis by simp
  next
    case False
    with Cons [of "Suc n"] show ?thesis by simp
  qed
qed

lemma right_of_enumerate:
  "map snd (filter (\<lambda>(i, c). p < int i) (enumerate n xs)) = drop (nat (p + 1 - int n)) xs"
proof (induction xs arbitrary: n)
  case Nil
  show ?case by simp
next
  case (Cons x xs)
  show ?case
  proof (cases "p < int n")
    case True
    with Cons [of "Suc n"] show ?thesis by simp
  next
    case False
    then have "nat (p + 1 - int n) = Suc (nat (p + 1 - int (Suc n)))" by simp
    with False Cons [of "Suc n"] show ?thesis by simp
  qed
qed

lemma render_cells_join: "render_cells cs = join_symbols cs"
proof -
  have "(\<lambda>c. case c of None \<Rightarrow> ''B'' | Some x \<Rightarrow> x) = symbol_to_str"
    by (rule ext) (simp split: option.splits)
  then show ?thesis by (simp add: render_cells_def join_symbols_def)
qed

lemma marker_state_part: "marker state cache = state_part state cache"
  by (simp add: marker_def state_part_def split: option.splits)

text \<open>
  Claim C8. For every tape, head position, state and cache, the renderer returns
  the cells left of the head, the marker \<open>[state]\<close> for a blank cache or
  \<open>[state,cache]\<close> otherwise, the cell under the head, and the cells right of the
  head, each blank cell rendered as \<open>B\<close>. With the head left of the tape the
  result is the marker, one \<open>B\<close> and the whole tape; with the head right of the
  tape it is the whole tape, the marker and one \<open>B\<close>.
\<close>

theorem instant_description_C8:
  "create_instant_description cells position state cache =
     render_cells (cells_left_of cells position) @ marker state cache
       @ render_cells [cell_under_head cells position]
       @ render_cells (cells_right_of cells position)
   \<and> (position < 0 \<longrightarrow>
        create_instant_description cells position state cache =
          marker state cache @ ''B'' @ render_cells cells)
   \<and> (int (length cells) \<le> position \<longrightarrow>
        create_instant_description cells position state cache =
          render_cells cells @ marker state cache @ ''B'')"
proof -
  have l: "cells_left_of cells position = take (nat position) cells"
    using left_of_enumerate [of position 0 cells] by (simp add: cells_left_of_def)
  have r: "cells_right_of cells position = drop (nat (position + 1)) cells"
    using right_of_enumerate [of position 0 cells] by (simp add: cells_right_of_def)
  show ?thesis
    by (simp add: l r create_instant_description_def cell_under_head_def
        render_cells_join marker_state_part join_symbols_def nat_add_distrib)
qed

theorem instant_description_C8_witness:
  "create_instant_description [Some ''a'', None, Some ''b''] 1 ''q0'' (Some ''x'')
     = ''a[q0,x]Bb''
   \<and> create_instant_description [Some ''a'', None] 2 ''q0'' None = ''aB[q0]B''
   \<and> create_instant_description [Some ''a'', None] (- 1) ''q0'' None = ''[q0]BaB''
   \<and> (- 1 :: int) < 0 \<and> int (length [Some ''a'', None]) \<le> 2"
  using instant_description_C8 [of "[Some ''a'', None, Some ''b'']" 1 "''q0''" "Some ''x''"]
    instant_description_C8 [of "[Some ''a'', None]" 2 "''q0''" None]
    instant_description_C8 [of "[Some ''a'', None]" "- 1" "''q0''" None]
  by (simp add: render_cells_def marker_def cells_left_of_def cells_right_of_def
      cell_under_head_def enumerate_eq_zip upt_rec)

section \<open>Growth of the tape\<close>

text \<open>What the extension does, by the place of the head.\<close>

lemma extend_tape_left:
  "tape_position s < 0 \<Longrightarrow>
   tape (extend_tape s) = None # tape s \<and> tape_position (extend_tape s) = 0"
  by (simp add: extend_tape_def)

lemma extend_tape_right:
  "int (length (tape s)) \<le> tape_position s \<Longrightarrow>
   tape (extend_tape s) = tape s @ [None]
   \<and> tape_position (extend_tape s) = tape_position s"
  by (simp add: extend_tape_def)

lemma extend_tape_inside:
  "0 \<le> tape_position s \<Longrightarrow> tape_position s < int (length (tape s)) \<Longrightarrow>
   extend_tape s = s"
  by (simp add: extend_tape_def)

lemma extend_tape_head_cell:
  assumes "head_near_tape s"
  shows "tape (extend_tape s) ! nat (tape_position (extend_tape s)) =
    (if 0 \<le> tape_position s \<and> tape_position s < int (length (tape s))
     then tape s ! nat (tape_position s) else None)"
proof -
  have "(tape s @ [None]) ! nat (tape_position s) = None"
    if "int (length (tape s)) \<le> tape_position s"
  proof -
    from that assms have "nat (tape_position s) = length (tape s)"
      by (simp add: head_near_tape_def)
    then show ?thesis by simp
  qed
  then show ?thesis by (simp add: extend_tape_def)
qed

lemma apply_transition_tape:
  "tape (apply_transition t i s) = (tape s)[i := tape_output t]"
  by (simp add: apply_transition_def Let_def split: option.splits)

lemma loop_body_tape_length:
  assumes "loop_body m s = Continue s' \<or> loop_body m s = Return s' \<or> loop_body m s = Break s'"
  shows "length (tape s) \<le> length (tape s')"
proof -
  have "length (tape s) \<le> length (tape (extend_tape s))"
    by (simp add: extend_tape_def)
  with assms show ?thesis
    by (auto simp: loop_body_def Let_def split: option.splits if_splits)
qed

lemma loop_state_at_tape_length:
  "j \<le> k \<Longrightarrow> loop_state_at m input_string j = Some s0 \<Longrightarrow>
   loop_state_at m input_string k = Some s \<Longrightarrow> length (tape s0) \<le> length (tape s)"
proof (induction k arbitrary: s)
  case 0
  then show ?case by simp
next
  case (Suc k)
  show ?case
  proof (cases "j = Suc k")
    case True
    with Suc.prems show ?thesis by simp
  next
    case False
    with Suc.prems(1) have jk: "j \<le> k" by simp
    from Suc.prems(3) obtain s1 where s1: "loop_state_at m input_string k = Some s1"
      and body: "loop_body m s1 = Continue s"
      by (auto split: option.splits if_splits iteration.splits)
    from Suc.IH [OF jk Suc.prems(2) s1] loop_body_tape_length [of m s1 s] body
    show ?thesis by simp
  qed
qed

lemma loop_state_at_run:
  "loop_state_at m input_string k = Some s \<Longrightarrow>
   simulate_loop m (initial_run m input_string) = simulate_loop m s"
proof (induction k arbitrary: s)
  case 0
  then show ?case by simp
next
  case (Suc k)
  then obtain s1 where s1: "loop_state_at m input_string k = Some s1"
    and st: "step s1 < max_steps" and body: "loop_body m s1 = Continue s"
    by (auto split: option.splits if_splits iteration.splits)
  from st body have "simulate_loop m s1 = simulate_loop m s"
    by (simp add: simulate_loop.simps [of m s1])
  with Suc.IH [OF s1] show ?case by simp
qed

lemma simulate_loop_tape_length:
  assumes run: "simulate_loop m s = Inr (sf, accepted)"
  shows "length (tape s) \<le> length (tape sf)"
proof -
  let ?I = "\<lambda>s'. length (tape s) \<le> length (tape s')"
  have "(\<lambda>s' (b::bool). ?I s') sf accepted"
  proof (rule simulate_loop_rule [OF run, where I = ?I])
    show "?I s" by simp
  next
    fix s1 s' assume "?I s1" "loop_body m s1 = Continue s'"
    then show "?I s'" using loop_body_tape_length [of m s1 s'] by simp
  next
    fix s1 s' assume "?I s1" "loop_body m s1 = Break s'"
    then show "?I s'" using loop_body_tape_length [of m s1 s'] by simp
  next
    fix s1 s' assume "?I s1" "loop_body m s1 = Return s'"
    then show "?I s'" using loop_body_tape_length [of m s1 s'] by simp
  next
    fix s1 :: run_state assume "?I s1" then show "?I s1" .
  qed
  then show ?thesis .
qed

text \<open>
  Claim C9. At every pass through the loop of a run: a head left of the tape
  makes the extension put one blank cell in front of the tape and the head on
  it; a head right of the tape is exactly one cell behind the last one, and the
  extension appends one blank cell there; a head on the tape leaves everything
  as it is. In each case the existing cells keep their order, the head is then
  on a cell of the tape, and that cell is the old one or the new blank. Writing
  a cell, with a symbol or with blank, changes that cell only and keeps the
  length; and the tape is never shorter than it was earlier in the run, up to
  the exit of the loop.
\<close>

theorem tape_growth_C9:
  assumes at: "loop_state_at m input_string k = Some s"
  shows "(tape_position s < 0 \<longrightarrow>
            tape (extend_tape s) = None # tape s \<and> tape_position (extend_tape s) = 0)
    \<and> (int (length (tape s)) \<le> tape_position s \<longrightarrow>
            tape_position s = int (length (tape s))
            \<and> tape (extend_tape s) = tape s @ [None]
            \<and> tape_position (extend_tape s) = tape_position s)
    \<and> (0 \<le> tape_position s \<and> tape_position s < int (length (tape s)) \<longrightarrow>
            extend_tape s = s)
    \<and> 0 \<le> tape_position (extend_tape s)
    \<and> tape_position (extend_tape s) < int (length (tape (extend_tape s)))
    \<and> py_index (length (tape (extend_tape s))) (tape_position (extend_tape s))
        = Some (nat (tape_position (extend_tape s)))
    \<and> tape (extend_tape s) ! nat (tape_position (extend_tape s))
        = (if 0 \<le> tape_position s \<and> tape_position s < int (length (tape s))
           then tape s ! nat (tape_position s) else None)
    \<and> (\<forall>t i. tape (apply_transition t i (extend_tape s))
                 = (tape (extend_tape s))[i := tape_output t]
             \<and> length (tape (apply_transition t i (extend_tape s)))
                 = length (tape (extend_tape s)))
    \<and> (\<forall>j s0. j \<le> k \<and> loop_state_at m input_string j = Some s0
          \<longrightarrow> length (tape s0) \<le> length (tape s))
    \<and> (\<forall>sf accepted. simulate_loop m (initial_run m input_string) = Inr (sf, accepted)
          \<longrightarrow> length (tape s) \<le> length (tape sf))"
proof -
  note near = loop_state_at_near [OF at]
  have left: "tape_position s < 0 \<longrightarrow>
      tape (extend_tape s) = None # tape s \<and> tape_position (extend_tape s) = 0"
    using extend_tape_left [of s] by blast
  have right: "int (length (tape s)) \<le> tape_position s \<longrightarrow>
      tape_position s = int (length (tape s))
      \<and> tape (extend_tape s) = tape s @ [None]
      \<and> tape_position (extend_tape s) = tape_position s"
    using extend_tape_right [of s] near by (auto simp: head_near_tape_def)
  have inside: "0 \<le> tape_position s \<and> tape_position s < int (length (tape s)) \<longrightarrow>
      extend_tape s = s"
    using extend_tape_inside [of s] by blast
  have earlier: "\<forall>j s0. j \<le> k \<and> loop_state_at m input_string j = Some s0
      \<longrightarrow> length (tape s0) \<le> length (tape s)"
    using loop_state_at_tape_length [OF _ _ at] by blast
  have later: "\<forall>sf accepted.
      simulate_loop m (initial_run m input_string) = Inr (sf, accepted)
      \<longrightarrow> length (tape s) \<le> length (tape sf)"
    using loop_state_at_run [OF at] simulate_loop_tape_length [of m s] by simp
  have wr: "\<forall>t i. tape (apply_transition t i (extend_tape s))
                 = (tape (extend_tape s))[i := tape_output t]
             \<and> length (tape (apply_transition t i (extend_tape s)))
                 = length (tape (extend_tape s))"
    by (simp add: apply_transition_tape)
  from left right inside extend_tape_in_range [OF near] extend_tape_index [OF near]
    extend_tape_head_cell [OF near] wr earlier later
  show ?thesis by blast
qed

theorem tape_growth_C9_witness:
  "loop_state_at sweep_machine ''a'' (Suc 0) = Some right_state
   \<and> int (length (tape right_state)) \<le> tape_position right_state
   \<and> tape (extend_tape right_state) = [Some ''a'', None]
   \<and> tape_position (extend_tape right_state) = 1
   \<and> tape (extend_tape right_state) ! nat (tape_position (extend_tape right_state)) = None
   \<and> loop_state_at sweep_machine ''a'' (Suc (Suc 0)) = Some inner_state
   \<and> 0 \<le> tape_position inner_state
   \<and> tape_position inner_state < int (length (tape inner_state))
   \<and> extend_tape inner_state = inner_state
   \<and> loop_state_at sweep_machine ''a'' (Suc (Suc (Suc 0))) = Some left_state
   \<and> tape_position left_state < 0
   \<and> tape (extend_tape left_state) = [None, Some ''a'', Some ''b'']
   \<and> tape_position (extend_tape left_state) = 0
   \<and> tape (extend_tape left_state) ! nat (tape_position (extend_tape left_state)) = None
   \<and> length (tape right_state) \<le> length (tape left_state)
   \<and> (\<exists>sf. simulate_loop sweep_machine (initial_run sweep_machine ''a'') = Inr (sf, True)
          \<and> tape sf = [None, Some ''a'', Some ''b'']
          \<and> length (tape left_state) \<le> length (tape sf))"
proof -
  have r_at: "loop_state_at sweep_machine ''a'' (Suc 0) = Some right_state"
    by (simp add: run_defs sweep_machine_def right_state_def)
  have i_at: "loop_state_at sweep_machine ''a'' (Suc (Suc 0)) = Some inner_state"
    by (simp add: run_defs sweep_machine_def inner_state_def)
  have l_at: "loop_state_at sweep_machine ''a'' (Suc (Suc (Suc 0))) = Some left_state"
    by (simp add: run_defs sweep_machine_def left_state_def)
  have r_hyp: "int (length (tape right_state)) \<le> tape_position right_state"
    by (simp add: right_state_def)
  have i_hyp: "0 \<le> tape_position inner_state"
    "tape_position inner_state < int (length (tape inner_state))"
    by (simp_all add: inner_state_def)
  have l_hyp: "tape_position left_state < 0"
    by (simp add: left_state_def)
  have "\<exists>sf. simulate_loop sweep_machine (initial_run sweep_machine ''a'') = Inr (sf, True)
      \<and> tape sf = [None, Some ''a'', Some ''b'']"
    by (simp add: simulate_loop.simps run_defs sweep_machine_def)
  then obtain sf
    where run: "simulate_loop sweep_machine (initial_run sweep_machine ''a'') = Inr (sf, True)"
      and sf: "tape sf = [None, Some ''a'', Some ''b'']" by blast
  note r = tape_growth_C9 [OF r_at] and i = tape_growth_C9 [OF i_at]
    and l = tape_growth_C9 [OF l_at]
  from r r_hyp have r1: "tape (extend_tape right_state) = [Some ''a'', None]"
    "tape_position (extend_tape right_state) = 1"
    "tape (extend_tape right_state) ! nat (tape_position (extend_tape right_state)) = None"
    by (simp_all add: right_state_def)
  from i i_hyp have i1: "extend_tape inner_state = inner_state" by blast
  from l l_hyp have l1: "tape (extend_tape left_state) = [None, Some ''a'', Some ''b'']"
    "tape_position (extend_tape left_state) = 0"
    "tape (extend_tape left_state) ! nat (tape_position (extend_tape left_state)) = None"
    by (simp_all add: left_state_def)
  from l r_at have mono: "length (tape right_state) \<le> length (tape left_state)"
    by (simp add: right_state_def left_state_def)
  from l run have fin: "length (tape left_state) \<le> length (tape sf)" by blast
  from r_at r_hyp r1 i_at i_hyp i1 l_at l_hyp l1 mono fin run sf show ?thesis by blast
qed

end
